theory Spec2Isabelle
  imports Main
begin

section \<open>AI risk explanations for access reviews: the enrichment handler\<close>

text \<open>
  A shallow embedding of \<^verbatim>\<open>lambdas/ai_explanation/handler.py\<close>. The table
  \<^verbatim>\<open>access_reviews\<close> is a list of rows, every function that touches the connection or
  the generation client takes the world and returns it, and every exception of the source
  is a value: a result is \<open>Inl\<close> of the exception or \<open>Inr\<close> of the returned value,
  paired with the world as it is when the call ends.

  Strings are lists of characters read as code points below 256; text with larger code
  points is outside the model. The connection is the one the handler holds for the whole
  invocation: acquiring it, and what \<^verbatim>\<open>db.get_connection\<close> commits or rolls back when
  the invocation ends, belong to \<^verbatim>\<open>common/db.py\<close> and are not modelled, so the world
  of a result is the table as the connection sees it at that moment. The logger is left
  out.
\<close>

subsection \<open>Data\<close>

datatype json =
    JNull
  | JBool bool
  | JNum int
  | JStr string
  | JArr "json list"
  | JObj "(string \<times> json) list"

type_synonym dict = "(string \<times> json) list"

text \<open>One row of \<^verbatim>\<open>access_reviews\<close>, with the columns the handler reads or writes.\<close>

record review =
  review_id :: string
  user_id :: string
  role_id :: string
  user_name :: string
  role_name :: string
  risk_level :: string
  ai_risk_summary :: "string option"

datatype exn =
    RuntimeError string
  | ValueError string
  | BackendError string
  | DbError string

text \<open>
  What the handler asks of its collaborators: the four statements it sends over the
  connection, and the call to the generation client.
\<close>

datatype op =
    Select_summary string
  | Fetch_context string
  | List_missing
  | Update_summary string string
  | Generate_content dict dict

record world =
  rows :: "review list"
  oplog :: "op list"

text \<open>
  The environment of one invocation. \<open>client\<close> is the module-level client: \<open>None\<close> when
  no API key is set; otherwise \<^verbatim>\<open>client.models.generate_content\<close>, which may answer
  differently at each call (it is given the operations so far), raising (\<open>Inl\<close>) or
  returning a response whose \<^verbatim>\<open>text\<close> is missing or \<^verbatim>\<open>None\<close> (\<open>Inr None\<close>) or a
  string. \<open>db_fault\<close> says which statements the storage engine rejects with an exception.
\<close>

record env =
  client :: "(op list \<Rightarrow> dict \<Rightarrow> dict \<Rightarrow> exn + string option) option"
  db_fault :: "op list \<Rightarrow> op \<Rightarrow> exn option"

datatype status = SUCCESS | SKIPPED | FAILED

datatype outcome = Outcome (status: status) (outcome_review_id: string) (reason: "string option")

datatype response =
    Single outcome
  | Batch status "outcome list"

record event =
  ev_review_id :: "string option"
  ev_user_context :: "dict option"
  ev_policy_json :: "dict option"

subsection \<open>Python's truth values and \<^verbatim>\<open>str.strip\<close>\<close>

definition truthy_str :: "string option \<Rightarrow> bool" where
  "truthy_str s = (case s of None \<Rightarrow> False | Some t \<Rightarrow> t \<noteq> [])"

definition truthy_dict :: "dict option \<Rightarrow> bool" where
  "truthy_dict d = (case d of None \<Rightarrow> False | Some kvs \<Rightarrow> kvs \<noteq> [])"

definition isspace :: "char \<Rightarrow> bool" where
  "isspace c = (of_char c \<in> {9, 10, 11, 12, 13, 28, 29, 30, 31, 32, 133, 160 :: nat})"

definition strip :: "string \<Rightarrow> string" where
  "strip s = rev (dropWhile isspace (rev (dropWhile isspace s)))"

subsection \<open>The storage layer\<close>

text \<open>
  \<^verbatim>\<open>db.execute\<close>: the statement is rejected with an exception, or it runs and is logged.
\<close>

definition db_execute :: "env \<Rightarrow> op \<Rightarrow> world \<Rightarrow> (exn + unit) \<times> world" where
  "db_execute e q w =
     (case db_fault e (oplog w) q of
        Some x \<Rightarrow> (Inl x, w)
      | None \<Rightarrow> (Inr (), w\<lparr>oplog := oplog w @ [q]\<rparr>))"

text \<open>
  Modelled from the spec: \<^verbatim>\<open>repo.fetch_review_context\<close> of \<^verbatim>\<open>common/repo.py\<close>, which is
  not among the sources. The storage contract gives
  \<^verbatim>\<open>fetch_review_context(review_id) -> (id, subject_id, role_id, subject_name, role_name, risk_level) | none\<close>.
\<close>

definition fetch_review_context ::
  "env \<Rightarrow> string \<Rightarrow> world \<Rightarrow>
     (exn + (string \<times> string \<times> string \<times> string \<times> string \<times> string) option) \<times> world" where
  "fetch_review_context e rid w =
     (case db_execute e (Fetch_context rid) w of
        (Inl x, w') \<Rightarrow> (Inl x, w')
      | (Inr _, w') \<Rightarrow>
          (Inr (case find (\<lambda>r. review_id r = rid) (rows w') of
                  None \<Rightarrow> None
                | Some r \<Rightarrow> Some (review_id r, user_id r, role_id r, user_name r, role_name r,
                                  risk_level r)),
           w'))"

text \<open>
  Modelled from the spec: \<^verbatim>\<open>repo.list_high_risk_reviews_missing_ai\<close> of
  \<^verbatim>\<open>common/repo.py\<close>, which is not among the sources. The batch coordinator discovers
  every review whose \<^verbatim>\<open>risk_level\<close> is \<^verbatim>\<open>HIGH\<close> and whose \<^verbatim>\<open>ai_risk_summary\<close> is
  null, by a storage-side filter; the result is a sequence of review rows.
\<close>

definition list_high_risk_reviews_missing_ai ::
  "env \<Rightarrow> world \<Rightarrow> (exn + review list) \<times> world" where
  "list_high_risk_reviews_missing_ai e w =
     (case db_execute e List_missing w of
        (Inl x, w') \<Rightarrow> (Inl x, w')
      | (Inr _, w') \<Rightarrow>
          (Inr (filter (\<lambda>r. risk_level r = ''HIGH'' \<and> ai_risk_summary r = None) (rows w')),
           w'))"

subsection \<open>The handler module\<close>

definition fallback_summary :: string where
  "fallback_summary =
     ''High-risk access detected based on policy and role mismatch. Manual review recommended.''"

definition generate_ai_summary ::
  "env \<Rightarrow> dict \<Rightarrow> dict \<Rightarrow> world \<Rightarrow> (exn + string) \<times> world" where
  "generate_ai_summary e user_context policy_json w =
     (case client e of
        None \<Rightarrow> (Inl (RuntimeError ''GenAI client not initialized''), w)
      | Some c \<Rightarrow>
          (let w' = w\<lparr>oplog := oplog w @ [Generate_content user_context policy_json]\<rparr> in
           case c (oplog w) user_context policy_json of
             Inl x \<Rightarrow> (Inl x, w')
           | Inr text \<Rightarrow>
               if truthy_str text then (Inr (strip (the text)), w')
               else (Inl (ValueError ''Empty GenAI response''), w')))"

definition existing_ai_summary ::
  "env \<Rightarrow> string \<Rightarrow> world \<Rightarrow> (exn + string option) \<times> world" where
  "existing_ai_summary e rid w =
     (case db_execute e (Select_summary rid) w of
        (Inl x, w') \<Rightarrow> (Inl x, w')
      | (Inr _, w') \<Rightarrow>
          (Inr (case find (\<lambda>r. review_id r = rid) (rows w') of
                  None \<Rightarrow> None
                | Some r \<Rightarrow> ai_risk_summary r),
           w'))"

definition build_context_from_db ::
  "env \<Rightarrow> string \<Rightarrow> world \<Rightarrow> (exn + (dict \<times> dict \<times> string) option) \<times> world" where
  "build_context_from_db e rid w =
     (case fetch_review_context e rid w of
        (Inl x, w') \<Rightarrow> (Inl x, w')
      | (Inr None, w') \<Rightarrow> (Inr None, w')
      | (Inr (Some (_, uid, rlid, uname, rname, risk)), w') \<Rightarrow>
          (Inr (Some ([(''user_id'', JStr uid),
                       (''user_name'', JStr uname),
                       (''department'', JStr ''Unknown''),
                       (''role'', JStr rname)],
                      [(''policy_arn'', JStr rlid),
                       (''policy_name'', JStr rname)],
                      risk)),
           w'))"

text \<open>
  The \<^verbatim>\<open>UPDATE\<close>: every row whose \<^verbatim>\<open>review_id\<close> matches gets the new summary.
\<close>

definition persist_summary ::
  "env \<Rightarrow> string \<Rightarrow> string \<Rightarrow> world \<Rightarrow> (exn + unit) \<times> world" where
  "persist_summary e rid summary w =
     (case db_execute e (Update_summary rid summary) w of
        (Inl x, w') \<Rightarrow> (Inl x, w')
      | (Inr _, w') \<Rightarrow>
          (Inr (),
           w'\<lparr>rows := map (\<lambda>r. if review_id r = rid
                                 then r\<lparr>ai_risk_summary := Some summary\<rparr> else r)
                          (rows w')\<rparr>))"

definition process_single_review ::
  "env \<Rightarrow> string \<Rightarrow> dict option \<Rightarrow> dict option \<Rightarrow> world \<Rightarrow> (exn + outcome) \<times> world" where
  "process_single_review e rid user_context policy_json w =
     (case existing_ai_summary e rid w of
        (Inl x, w1) \<Rightarrow> (Inl x, w1)
      | (Inr existing, w1) \<Rightarrow>
          if truthy_str existing
          then (Inr (Outcome SKIPPED rid (Some ''already_present'')), w1)
          else
            (case (if \<not> truthy_dict user_context \<or> \<not> truthy_dict policy_json
                   then build_context_from_db e rid w1
                   else (Inr (Some (the user_context, the policy_json, ''HIGH'')), w1)) of
               (Inl x, w2) \<Rightarrow> (Inl x, w2)
             | (Inr None, w2) \<Rightarrow> (Inr (Outcome FAILED rid (Some ''not_found'')), w2)
             | (Inr (Some (uc, pj, risk)), w2) \<Rightarrow>
                 if risk \<noteq> ''HIGH''
                 then (Inr (Outcome SKIPPED rid (Some ''non_high_risk'')), w2)
                 else
                   (case generate_ai_summary e uc pj w2 of
                      (g, w3) \<Rightarrow>
                        (let summary = (case g of Inl _ \<Rightarrow> fallback_summary | Inr s \<Rightarrow> s) in
                         case persist_summary e rid summary w3 of
                           (Inl x, w4) \<Rightarrow> (Inl x, w4)
                         | (Inr _, w4) \<Rightarrow> (Inr (Outcome SUCCESS rid None), w4)))))"

text \<open>The loop of the batch mode, \<^verbatim>\<open>results\<close> being the list it appends to.\<close>

fun batch_loop ::
  "env \<Rightarrow> review list \<Rightarrow> outcome list \<Rightarrow> world \<Rightarrow> (exn + outcome list) \<times> world" where
  "batch_loop e [] results w = (Inr results, w)"
| "batch_loop e (row # rest) results w =
     (case process_single_review e (review_id row) None None w of
        (Inl x, w') \<Rightarrow> (Inl x, w')
      | (Inr r, w') \<Rightarrow> batch_loop e rest (results @ [r]) w')"

definition handler :: "env \<Rightarrow> event \<Rightarrow> world \<Rightarrow> (exn + response) \<times> world" where
  "handler e ev w =
     (if truthy_str (ev_review_id ev)
      then
        (case process_single_review e (the (ev_review_id ev))
                (ev_user_context ev) (ev_policy_json ev) w of
           (Inl x, w') \<Rightarrow> (Inl x, w')
         | (Inr r, w') \<Rightarrow> (Inr (Single r), w'))
      else
        (case list_high_risk_reviews_missing_ai e w of
           (Inl x, w1) \<Rightarrow> (Inl x, w1)
         | (Inr found, w1) \<Rightarrow>
             (case batch_loop e found [] w1 of
                (Inl x, w2) \<Rightarrow> (Inl x, w2)
              | (Inr results, w2) \<Rightarrow> (Inr (Batch SUCCESS results), w2))))"

subsection \<open>Vocabulary of the properties\<close>

text \<open>No statement sent over the connection raises.\<close>

definition db_ok :: "env \<Rightarrow> bool" where
  "db_ok e = (\<forall>l q. db_fault e l q = None)"

text \<open>The row a \<^verbatim>\<open>SELECT ... WHERE review_id = ?\<close> followed by \<^verbatim>\<open>fetchone\<close> reads.\<close>

definition lookup :: "world \<Rightarrow> string \<Rightarrow> review option" where
  "lookup w rid = find (\<lambda>r. review_id r = rid) (rows w)"

definition stored_summary :: "world \<Rightarrow> string \<Rightarrow> string option" where
  "stored_summary w rid = (case lookup w rid of None \<Rightarrow> None | Some r \<Rightarrow> ai_risk_summary r)"

text \<open>The statement that reads the stored \<^verbatim>\<open>risk_level\<close> of one review.\<close>

definition is_fetch :: "op \<Rightarrow> bool" where
  "is_fetch q = (case q of Fetch_context _ \<Rightarrow> True | _ \<Rightarrow> False)"

definition summary_of :: "exn + string \<Rightarrow> string" where
  "summary_of g = (case g of Inl _ \<Rightarrow> fallback_summary | Inr s \<Rightarrow> s)"

text \<open>A backend text that passes the emptiness test and is empty once stripped.\<close>

definition blank :: "string \<Rightarrow> bool" where
  "blank t = (t \<noteq> [] \<and> strip t = [])"

text \<open>
  From one world to a later one, every review that had a summary (non-null and
  non-empty) has the same summary.
\<close>

definition keeps_summaries :: "world \<Rightarrow> world \<Rightarrow> bool" where
  "keeps_summaries w w' =
     (\<forall>rid. truthy_str (stored_summary w rid) \<longrightarrow>
            stored_summary w' rid = stored_summary w rid)"

subsection \<open>Example worlds\<close>

definition example_review :: "string \<Rightarrow> string \<Rightarrow> string option \<Rightarrow> review" where
  "example_review rid risk s =
     \<lparr>review_id = rid, user_id = ''u-17'', role_id = ''arn:aws:iam::aws:policy/AdministratorAccess'',
      user_name = ''Asha'', role_name = ''AdministratorAccess'', risk_level = risk,
      ai_risk_summary = s\<rparr>"

definition example_world :: world where
  "example_world =
     \<lparr>rows = [example_review ''R1'' ''HIGH'' None,
              example_review ''R2'' ''LOW'' None,
              example_review ''R3'' ''HIGH'' (Some ''already there''),
              example_review ''R5'' ''HIGH'' None],
      oplog = []\<rparr>"

definition no_client :: env where
  "no_client = \<lparr>client = None, db_fault = (\<lambda>_ _. None)\<rparr>"

definition const_client :: "string \<Rightarrow> env" where
  "const_client t = \<lparr>client = Some (\<lambda>_ _ _. Inr (Some t)), db_fault = (\<lambda>_ _. None)\<rparr>"

definition failing_client :: env where
  "failing_client =
     \<lparr>client = Some (\<lambda>_ _ _. Inl (BackendError ''503 Service Unavailable'')),
      db_fault = (\<lambda>_ _. None)\<rparr>"

text \<open>A storage engine that rejects every write to one review.\<close>

definition write_fault :: "string \<Rightarrow> env" where
  "write_fault rid =
     \<lparr>client = None,
      db_fault = (\<lambda>_ q. case q of
                     Update_summary k _ \<Rightarrow>
                       if k = rid then Some (DbError ''database is locked'') else None
                   | _ \<Rightarrow> None)\<rparr>"

definition batch_event :: event where
  "batch_event = \<lparr>ev_review_id = None, ev_user_context = None, ev_policy_json = None\<rparr>"

definition single_event :: "string \<Rightarrow> event" where
  "single_event rid =
     \<lparr>ev_review_id = Some rid, ev_user_context = None, ev_policy_json = None\<rparr>"

definition inline_event :: "string \<Rightarrow> dict \<Rightarrow> dict \<Rightarrow> event" where
  "inline_event rid u p =
     \<lparr>ev_review_id = Some rid, ev_user_context = Some u, ev_policy_json = Some p\<rparr>"

section \<open>Properties\<close>

subsection \<open>Each operation when the storage does not raise\<close>

lemma db_execute_ok: "db_ok e \<Longrightarrow> db_execute e q w = (Inr (), w\<lparr>oplog := oplog w @ [q]\<rparr>)"
  by (simp add: db_ok_def db_execute_def)

lemma existing_ai_summary_ok:
  "db_ok e \<Longrightarrow> existing_ai_summary e rid w =
     (Inr (stored_summary w rid), w\<lparr>oplog := oplog w @ [Select_summary rid]\<rparr>)"
  by (simp add: existing_ai_summary_def db_execute_ok stored_summary_def lookup_def)

lemma build_context_absent:
  "db_ok e \<Longrightarrow> lookup w rid = None \<Longrightarrow>
   build_context_from_db e rid w = (Inr None, w\<lparr>oplog := oplog w @ [Fetch_context rid]\<rparr>)"
  by (simp add: build_context_from_db_def fetch_review_context_def db_execute_ok lookup_def)

lemma build_context_present:
  "db_ok e \<Longrightarrow> lookup w rid = Some r \<Longrightarrow>
   build_context_from_db e rid w =
     (Inr (Some ([(''user_id'', JStr (user_id r)), (''user_name'', JStr (user_name r)),
                  (''department'', JStr ''Unknown''), (''role'', JStr (role_name r))],
                 [(''policy_arn'', JStr (role_id r)), (''policy_name'', JStr (role_name r))],
                 risk_level r)),
      w\<lparr>oplog := oplog w @ [Fetch_context rid]\<rparr>)"
  by (simp add: build_context_from_db_def fetch_review_context_def db_execute_ok lookup_def)

lemma persist_summary_ok:
  "db_ok e \<Longrightarrow> persist_summary e rid s w =
     (Inr (), w\<lparr>oplog := oplog w @ [Update_summary rid s],
                rows := map (\<lambda>r. if review_id r = rid then r\<lparr>ai_risk_summary := Some s\<rparr> else r)
                            (rows w)\<rparr>)"
  by (simp add: persist_summary_def db_execute_ok)

lemma generate_rows: "generate_ai_summary e u p w = (g, w') \<Longrightarrow> rows w' = rows w"
  by (auto simp: generate_ai_summary_def Let_def split: option.splits sum.splits if_splits)

lemma lookup_oplog [simp]: "lookup (w\<lparr>oplog := l\<rparr>) rid = lookup w rid"
  by (simp add: lookup_def)

lemma lookup_absent: "lookup w rid = None \<longleftrightarrow> rid \<notin> set (map review_id (rows w))"
  by (auto simp: lookup_def find_None_iff)

lemma find_after_update:
  "find (\<lambda>r. review_id r = rid)
        (map (\<lambda>r. if review_id r = k then r\<lparr>ai_risk_summary := Some s\<rparr> else r) xs)
   = map_option (\<lambda>r. if review_id r = k then r\<lparr>ai_risk_summary := Some s\<rparr> else r)
        (find (\<lambda>r. review_id r = rid) xs)"
  by (induction xs) auto

subsection \<open>The branches of the orchestrator\<close>

lemma psr_already_present:
  assumes "db_fault e (oplog w) (Select_summary rid) = None"
    and "truthy_str (stored_summary w rid)"
  shows "process_single_review e rid uc pj w =
           (Inr (Outcome SKIPPED rid (Some ''already_present'')),
            w\<lparr>oplog := oplog w @ [Select_summary rid]\<rparr>)"
  using assms
  by (simp add: process_single_review_def existing_ai_summary_def db_execute_def
      stored_summary_def lookup_def)

lemma psr_not_found:
  assumes "db_ok e" and "lookup w rid = None"
    and "\<not> truthy_dict uc \<or> \<not> truthy_dict pj"
  shows "process_single_review e rid uc pj w =
           (Inr (Outcome FAILED rid (Some ''not_found'')),
            w\<lparr>oplog := oplog w @ [Select_summary rid, Fetch_context rid]\<rparr>)"
proof -
  have "stored_summary w rid = None"
    using assms(2) by (simp add: stored_summary_def)
  then show ?thesis
    using assms
    by (auto simp: process_single_review_def existing_ai_summary_ok build_context_absent
        truthy_str_def)
qed

lemma psr_generates:
  assumes "db_ok e" and "\<not> truthy_str (stored_summary w rid)"
    and "build = (\<not> truthy_dict uc \<or> \<not> truthy_dict pj)"
    and "build \<longrightarrow> lookup w rid = Some r \<and> risk_level r = ''HIGH''"
    and "u = (if build
              then [(''user_id'', JStr (user_id r)), (''user_name'', JStr (user_name r)),
                    (''department'', JStr ''Unknown''), (''role'', JStr (role_name r))]
              else the uc)"
    and "p = (if build
              then [(''policy_arn'', JStr (role_id r)), (''policy_name'', JStr (role_name r))]
              else the pj)"
    and "w2 = w\<lparr>oplog := oplog w @ (if build then [Select_summary rid, Fetch_context rid]
                                       else [Select_summary rid])\<rparr>"
    and "generate_ai_summary e u p w2 = (g, w3)"
  shows "process_single_review e rid uc pj w =
           (Inr (Outcome SUCCESS rid None),
            w3\<lparr>oplog := oplog w3 @ [Update_summary rid (summary_of g)],
                rows := map (\<lambda>r. if review_id r = rid
                                  then r\<lparr>ai_risk_summary := Some (summary_of g)\<rparr> else r)
                            (rows w)\<rparr>)"
proof (cases build)
  case True
  then show ?thesis
    using assms generate_rows[OF assms(8)]
    by (auto simp: process_single_review_def existing_ai_summary_ok build_context_present
        persist_summary_ok summary_of_def Let_def split: sum.splits)
next
  case False
  then show ?thesis
    using assms generate_rows[OF assms(8)]
    by (auto simp: process_single_review_def existing_ai_summary_ok
        persist_summary_ok summary_of_def Let_def split: sum.splits)
qed

subsection \<open>Persistence\<close>

text \<open>
  C9. The persistence step writes only the \<^verbatim>\<open>ai_risk_summary\<close> field of the rows whose
  \<^verbatim>\<open>review_id\<close> is the one being processed: the table keeps its length, every row of
  another review is unchanged, and a row of this review differs from what it was at most
  in \<^verbatim>\<open>ai_risk_summary\<close> (so \<^verbatim>\<open>risk_level\<close> is as before), which holds the summary
  when the statement did not raise.
\<close>

theorem persist_summary_frame:
  assumes "persist_summary e rid summary w = (res, w')"
  shows "length (rows w') = length (rows w) \<and>
         (\<forall>i < length (rows w).
            risk_level (rows w' ! i) = risk_level (rows w ! i) \<and>
            (review_id (rows w ! i) \<noteq> rid \<longrightarrow> rows w' ! i = rows w ! i) \<and>
            (review_id (rows w ! i) = rid \<longrightarrow>
               rows w' ! i = (rows w ! i)\<lparr>ai_risk_summary := ai_risk_summary (rows w' ! i)\<rparr> \<and>
               (res = Inr () \<longrightarrow> ai_risk_summary (rows w' ! i) = Some summary)))"
  using assms
  by (auto simp: persist_summary_def db_execute_def split: option.splits)

theorem persist_summary_frame_witness:
  "persist_summary no_client ''R1'' ''Explanation X.'' example_world =
     (Inr (),
      \<lparr>rows = [example_review ''R1'' ''HIGH'' (Some ''Explanation X.''),
               example_review ''R2'' ''LOW'' None,
               example_review ''R3'' ''HIGH'' (Some ''already there''),
               example_review ''R5'' ''HIGH'' None],
       oplog = [Update_summary ''R1'' ''Explanation X.'']\<rparr>)
   \<and> rows (snd (persist_summary no_client ''R1'' ''Explanation X.'' example_world)) ! 1 =
       rows example_world ! 1"
proof -
  have run: "persist_summary no_client ''R1'' ''Explanation X.'' example_world =
     (Inr (),
      \<lparr>rows = [example_review ''R1'' ''HIGH'' (Some ''Explanation X.''),
               example_review ''R2'' ''LOW'' None,
               example_review ''R3'' ''HIGH'' (Some ''already there''),
               example_review ''R5'' ''HIGH'' None],
       oplog = [Update_summary ''R1'' ''Explanation X.'']\<rparr>)"
    by (simp add: persist_summary_def db_execute_def no_client_def example_world_def
        example_review_def)
  have other: "review_id (rows example_world ! 1) \<noteq> ''R1''"
    and inside: "1 < length (rows example_world)"
    by (simp_all add: example_world_def example_review_def)
  have "rows (snd (persist_summary no_client ''R1'' ''Explanation X.'' example_world)) ! 1 =
          rows example_world ! 1"
    using persist_summary_frame [OF run, THEN conjunct2, rule_format, OF inside] other
    by (simp add: run)
  then show ?thesis
    using run by simp
qed

subsection \<open>Reviews that are not found\<close>

text \<open>
  C5. When no row of the table has the given \<^verbatim>\<open>review_id\<close> and the event of a
  single-review invocation carries no inline context (\<^verbatim>\<open>user_context\<close> or
  \<^verbatim>\<open>policy_json\<close> is missing or empty) and no statement raises, the handler returns
  the outcome \<^verbatim>\<open>FAILED\<close> with reason \<^verbatim>\<open>not_found\<close>. The table is as before and the
  only operations are the two reads: there is no generation call and no write.
\<close>

theorem not_found_fails:
  assumes "db_ok e"
    and "ev_review_id ev = Some rid" and "rid \<noteq> []"
    and "rid \<notin> set (map review_id (rows w))"
    and "\<not> truthy_dict (ev_user_context ev) \<or> \<not> truthy_dict (ev_policy_json ev)"
  shows "handler e ev w =
           (Inr (Single (Outcome FAILED rid (Some ''not_found''))),
            w\<lparr>oplog := oplog w @ [Select_summary rid, Fetch_context rid]\<rparr>)"
proof -
  have "lookup w rid = None"
    using assms(4) by (simp add: lookup_absent)
  then have "process_single_review e rid (ev_user_context ev) (ev_policy_json ev) w =
               (Inr (Outcome FAILED rid (Some ''not_found'')),
                w\<lparr>oplog := oplog w @ [Select_summary rid, Fetch_context rid]\<rparr>)"
    using assms(1,5) by (simp add: psr_not_found)
  then show ?thesis
    using assms(2,3) by (simp add: handler_def truthy_str_def)
qed

theorem not_found_fails_witness:
  "handler no_client (single_event ''R4'') example_world =
     (Inr (Single (Outcome FAILED ''R4'' (Some ''not_found''))),
      example_world\<lparr>oplog := oplog example_world @ [Select_summary ''R4'', Fetch_context ''R4'']\<rparr>)"
proof -
  have h1: "db_ok no_client"
    by (simp add: db_ok_def no_client_def)
  have h2: "ev_review_id (single_event ''R4'') = Some ''R4''"
    by (simp add: single_event_def)
  have h3: "''R4'' \<noteq> []"
    by simp
  have h4: "''R4'' \<notin> set (map review_id (rows example_world))"
    by (simp add: example_world_def example_review_def)
  have h5: "\<not> truthy_dict (ev_user_context (single_event ''R4'')) \<or>
            \<not> truthy_dict (ev_policy_json (single_event ''R4''))"
    by (simp add: single_event_def truthy_dict_def)
  show ?thesis
    by (rule not_found_fails [OF h1 h2 h3 h4 h5])
qed

subsection \<open>Risk gating\<close>

text \<open>
  C4, as amended. A review that is in storage with a \<^verbatim>\<open>risk_level\<close> other than
  \<^verbatim>\<open>HIGH\<close> and with no summary yet (null or empty), processed with no inline context
  (\<^verbatim>\<open>user_context\<close> or \<^verbatim>\<open>policy_json\<close> missing or empty) while no statement raises,
  ends in \<^verbatim>\<open>SKIPPED\<close> with reason \<^verbatim>\<open>non_high_risk\<close>; the table is unchanged, and the
  two reads are the only operations: no generation call, no write.
\<close>

theorem non_high_risk_skipped:
  assumes "db_ok e" and "lookup w rid = Some r" and "risk_level r \<noteq> ''HIGH''"
    and "\<not> truthy_str (ai_risk_summary r)"
    and "\<not> truthy_dict uc \<or> \<not> truthy_dict pj"
  shows "process_single_review e rid uc pj w =
           (Inr (Outcome SKIPPED rid (Some ''non_high_risk'')),
            w\<lparr>oplog := oplog w @ [Select_summary rid, Fetch_context rid]\<rparr>)"
proof -
  have "stored_summary w rid = ai_risk_summary r"
    using assms(2) by (simp add: stored_summary_def)
  then show ?thesis
    using assms
    by (auto simp: process_single_review_def existing_ai_summary_ok build_context_present)
qed

theorem non_high_risk_skipped_witness:
  "process_single_review (const_client ''Explanation X.'') ''R2'' None None example_world =
     (Inr (Outcome SKIPPED ''R2'' (Some ''non_high_risk'')),
      example_world\<lparr>oplog := oplog example_world @ [Select_summary ''R2'', Fetch_context ''R2'']\<rparr>)"
proof -
  have h1: "db_ok (const_client ''Explanation X.'')"
    by (simp add: db_ok_def const_client_def)
  have h2: "lookup example_world ''R2'' = Some (example_review ''R2'' ''LOW'' None)"
    by (simp add: lookup_def example_world_def example_review_def)
  have h3: "risk_level (example_review ''R2'' ''LOW'' None) \<noteq> ''HIGH''"
    by (simp add: example_review_def)
  have h4: "\<not> truthy_str (ai_risk_summary (example_review ''R2'' ''LOW'' None))"
    by (simp add: example_review_def truthy_str_def)
  have h5: "\<not> truthy_dict None \<or> \<not> truthy_dict None"
    by (simp add: truthy_dict_def)
  show ?thesis
    by (rule non_high_risk_skipped [OF h1 h2 h3 h4 h5])
qed

text \<open>
  The claim as stated fails for a \<^verbatim>\<open>LOW\<close> review processed with inline context: the
  orchestrator takes the risk level to be \<^verbatim>\<open>HIGH\<close> without reading the stored one,
  generates, and writes the summary.
\<close>

theorem risk_gating_counterexample:
  "risk_level (example_review ''R2'' ''LOW'' None) \<noteq> ''HIGH'' \<and>
   lookup example_world ''R2'' = Some (example_review ''R2'' ''LOW'' None) \<and>
   fst (process_single_review (const_client ''Explanation X.'') ''R2''
          (Some [(''department'', JStr ''Finance'')]) (Some [(''Version'', JStr ''2012-10-17'')])
          example_world) = Inr (Outcome SUCCESS ''R2'' None) \<and>
   stored_summary
     (snd (process_single_review (const_client ''Explanation X.'') ''R2''
          (Some [(''department'', JStr ''Finance'')]) (Some [(''Version'', JStr ''2012-10-17'')])
          example_world)) ''R2'' = Some ''Explanation X.''"
  by (simp add: process_single_review_def existing_ai_summary_def db_execute_def
      const_client_def example_world_def example_review_def truthy_str_def truthy_dict_def
      generate_ai_summary_def persist_summary_def strip_def isspace_def Let_def
      stored_summary_def lookup_def)

subsection \<open>Generation and its fallback\<close>

lemma stored_after_update:
  "stored_summary (w\<lparr>rows := map (\<lambda>r. if review_id r = rid
                                       then r\<lparr>ai_risk_summary := Some s\<rparr> else r) (rows w0)\<rparr>) rid
   = (case lookup w0 rid of None \<Rightarrow> None | Some _ \<Rightarrow> Some s)"
  by (auto simp: stored_summary_def lookup_def find_after_update split: option.splits
      dest: find_Some_iff [THEN iffD1])

lemma stored_summary_oplog [simp]: "stored_summary (w\<lparr>oplog := l\<rparr>) rid = stored_summary w rid"
  by (simp add: stored_summary_def)

lemma generate_cases:
  obtains (unconfigured) "client e = None"
      "generate_ai_summary e u p w = (Inl (RuntimeError ''GenAI client not initialized''), w)"
  | (raised) c x where "client e = Some c" "c (oplog w) u p = Inl x"
      "generate_ai_summary e u p w = (Inl x, w\<lparr>oplog := oplog w @ [Generate_content u p]\<rparr>)"
  | (empty) c t where "client e = Some c" "c (oplog w) u p = Inr t" "\<not> truthy_str t"
      "generate_ai_summary e u p w =
         (Inl (ValueError ''Empty GenAI response''), w\<lparr>oplog := oplog w @ [Generate_content u p]\<rparr>)"
  | (answered) c t where "client e = Some c" "c (oplog w) u p = Inr (Some t)" "t \<noteq> []"
      "generate_ai_summary e u p w =
         (Inr (strip t), w\<lparr>oplog := oplog w @ [Generate_content u p]\<rparr>)"
proof (cases "client e")
  case None
  then show ?thesis
    using unconfigured by (simp add: generate_ai_summary_def)
next
  case (Some c)
  show ?thesis
  proof (cases "c (oplog w) u p")
    case (Inl x)
    then show ?thesis
      using Some raised by (simp add: generate_ai_summary_def)
  next
    case (Inr t)
    show ?thesis
    proof (cases "truthy_str t")
      case True
      then obtain s where "t = Some s" "s \<noteq> []"
        by (auto simp: truthy_str_def split: option.splits)
      then show ?thesis
        using Some Inr True answered by (simp add: generate_ai_summary_def)
    next
      case False
      then show ?thesis
        using Some Inr empty by (simp add: generate_ai_summary_def)
    qed
  qed
qed

lemma generate_fails:
  assumes "client e = None \<or> (\<exists>c. client e = Some c \<and> (\<forall>l u p. \<exists>x. c l u p = Inl x))"
  shows "\<exists>x w'. generate_ai_summary e u p w = (Inl x, w')"
proof (cases "client e")
  case None
  then show ?thesis
    by (simp add: generate_ai_summary_def)
next
  case (Some c)
  then have "\<forall>l u p. \<exists>x. c l u p = Inl x"
    using assms by simp
  then obtain x where "c (oplog w) u p = Inl x"
    by blast
  then show ?thesis
    using Some by (simp add: generate_ai_summary_def)
qed

text \<open>
  C3. When the generation client is not configured, or every call of it raises, and no
  statement raises, processing a review that is in storage with \<^verbatim>\<open>risk_level\<close>
  \<^verbatim>\<open>HIGH\<close> and a null summary ends in \<^verbatim>\<open>SUCCESS\<close>, and the summary then stored for
  it is the fixed fallback sentence, character for character.
\<close>

theorem fallback_guarantee:
  assumes "db_ok e"
    and "client e = None \<or> (\<exists>c. client e = Some c \<and> (\<forall>l u p. \<exists>x. c l u p = Inl x))"
    and "lookup w rid = Some r" and "risk_level r = ''HIGH''" and "ai_risk_summary r = None"
    and "process_single_review e rid uc pj w = (res, w')"
  shows "res = Inr (Outcome SUCCESS rid None) \<and>
         stored_summary w' rid =
           Some ''High-risk access detected based on policy and role mismatch. Manual review recommended.''"
proof -
  define build where "build = (\<not> truthy_dict uc \<or> \<not> truthy_dict pj)"
  define u where "u = (if build
              then [(''user_id'', JStr (user_id r)), (''user_name'', JStr (user_name r)),
                    (''department'', JStr ''Unknown''), (''role'', JStr (role_name r))]
              else the uc)"
  define p where "p = (if build
              then [(''policy_arn'', JStr (role_id r)), (''policy_name'', JStr (role_name r))]
              else the pj)"
  define w2 where "w2 = w\<lparr>oplog := oplog w @ (if build then [Select_summary rid, Fetch_context rid]
                                       else [Select_summary rid])\<rparr>"
  obtain g w3 where gen: "generate_ai_summary e u p w2 = (g, w3)"
    by (cases "generate_ai_summary e u p w2")
  have fails: "\<exists>x. g = Inl x"
    using generate_fails [OF assms(2), of u p w2] gen by auto
  have none: "\<not> truthy_str (stored_summary w rid)"
    using assms(3,5) by (simp add: stored_summary_def truthy_str_def)
  have "build \<longrightarrow> lookup w rid = Some r \<and> risk_level r = ''HIGH''"
    using assms(3,4) by simp
  from psr_generates [OF assms(1) none build_def this u_def p_def w2_def gen]
  have run: "process_single_review e rid uc pj w =
           (Inr (Outcome SUCCESS rid None),
            w3\<lparr>oplog := oplog w3 @ [Update_summary rid (summary_of g)],
                rows := map (\<lambda>r. if review_id r = rid
                                  then r\<lparr>ai_risk_summary := Some (summary_of g)\<rparr> else r)
                            (rows w)\<rparr>)" .
  have "summary_of g = fallback_summary"
    using fails by (auto simp: summary_of_def)
  then show ?thesis
    using run assms(3,6) by (auto simp: stored_after_update fallback_summary_def)
qed

theorem fallback_guarantee_witness:
  "fst (process_single_review failing_client ''R1'' None None example_world) =
     Inr (Outcome SUCCESS ''R1'' None) \<and>
   stored_summary (snd (process_single_review failing_client ''R1'' None None example_world)) ''R1'' =
     Some ''High-risk access detected based on policy and role mismatch. Manual review recommended.''"
proof -
  have h1: "db_ok failing_client"
    by (simp add: db_ok_def failing_client_def)
  have h2: "client failing_client = None \<or>
            (\<exists>c. client failing_client = Some c \<and> (\<forall>l u p. \<exists>x. c l u p = Inl x))"
    by (simp add: failing_client_def)
  have h3: "lookup example_world ''R1'' = Some (example_review ''R1'' ''HIGH'' None)"
    by (simp add: lookup_def example_world_def example_review_def)
  have h4: "risk_level (example_review ''R1'' ''HIGH'' None) = ''HIGH''"
    and h5: "ai_risk_summary (example_review ''R1'' ''HIGH'' None) = None"
    by (simp_all add: example_review_def)
  show ?thesis
    using fallback_guarantee [OF h1 h2 h3 h4 h5, of None None
        "fst (process_single_review failing_client ''R1'' None None example_world)"
        "snd (process_single_review failing_client ''R1'' None None example_world)"]
    by simp
qed

subsection \<open>Idempotence\<close>

lemma summary_of_nonempty:
  assumes "\<forall>c l u p t. client e = Some c \<longrightarrow> c l u p = Inr (Some t) \<longrightarrow> \<not> blank t"
    and "generate_ai_summary e u p w = (g, w')"
  shows "summary_of g \<noteq> []"
proof (cases e u p w rule: generate_cases)
  case (answered c t)
  then have "\<not> blank t"
    using assms(1) by blast
  then show ?thesis
    using answered assms(2) by (simp add: summary_of_def blank_def)
qed (use assms(2) in \<open>auto simp: summary_of_def fallback_summary_def\<close>)

text \<open>
  C1, as amended. Take a review that is in storage with no summary yet (null or empty)
  and that is eligible: its \<^verbatim>\<open>risk_level\<close> is \<^verbatim>\<open>HIGH\<close>, or the call carries both inline
  contexts. If no statement raises and the backend never answers with a text that is
  only whitespace, then processing it twice in sequence gives \<^verbatim>\<open>SUCCESS\<close> and then
  \<^verbatim>\<open>SKIPPED\<close> with reason \<^verbatim>\<open>already_present\<close>; the second call leaves the table as the
  first one left it, so the stored summary after the second call is the one stored by
  the first.
\<close>

theorem enrichment_idempotent:
  assumes "db_ok e"
    and "lookup w rid = Some r" and "\<not> truthy_str (ai_risk_summary r)"
    and "risk_level r = ''HIGH'' \<or> (truthy_dict uc \<and> truthy_dict pj)"
    and "\<forall>c l u p t. client e = Some c \<longrightarrow> c l u p = Inr (Some t) \<longrightarrow> \<not> blank t"
    and "process_single_review e rid uc pj w = (res1, w1)"
    and "process_single_review e rid uc pj w1 = (res2, w2)"
  shows "res1 = Inr (Outcome SUCCESS rid None) \<and>
         res2 = Inr (Outcome SKIPPED rid (Some ''already_present'')) \<and>
         stored_summary w1 rid \<noteq> None \<and>
         stored_summary w2 rid = stored_summary w1 rid \<and>
         rows w2 = rows w1"
proof -
  define build where "build = (\<not> truthy_dict uc \<or> \<not> truthy_dict pj)"
  define u where "u = (if build
              then [(''user_id'', JStr (user_id r)), (''user_name'', JStr (user_name r)),
                    (''department'', JStr ''Unknown''), (''role'', JStr (role_name r))]
              else the uc)"
  define p where "p = (if build
              then [(''policy_arn'', JStr (role_id r)), (''policy_name'', JStr (role_name r))]
              else the pj)"
  define v where "v = w\<lparr>oplog := oplog w @ (if build then [Select_summary rid, Fetch_context rid]
                                       else [Select_summary rid])\<rparr>"
  obtain g w3 where gen: "generate_ai_summary e u p v = (g, w3)"
    by (cases "generate_ai_summary e u p v")
  have none: "\<not> truthy_str (stored_summary w rid)"
    using assms(2,3) by (simp add: stored_summary_def)
  have "build \<longrightarrow> lookup w rid = Some r \<and> risk_level r = ''HIGH''"
    using assms(2,4) by (auto simp: build_def)
  from psr_generates [OF assms(1) none build_def this u_def p_def v_def gen] assms(6)
  have first: "res1 = Inr (Outcome SUCCESS rid None)"
    and w1: "w1 = w3\<lparr>oplog := oplog w3 @ [Update_summary rid (summary_of g)],
                rows := map (\<lambda>r. if review_id r = rid
                                  then r\<lparr>ai_risk_summary := Some (summary_of g)\<rparr> else r)
                            (rows w)\<rparr>"
    by simp_all
  have stored: "stored_summary w1 rid = Some (summary_of g)"
    using assms(2) by (simp add: w1 stored_after_update)
  have "summary_of g \<noteq> []"
    using assms(5) gen by (rule summary_of_nonempty)
  then have present: "truthy_str (stored_summary w1 rid)"
    by (simp add: stored truthy_str_def)
  have "db_fault e (oplog w1) (Select_summary rid) = None"
    using assms(1) by (simp add: db_ok_def)
  from psr_already_present [OF this present, of uc pj] assms(7)
  have "res2 = Inr (Outcome SKIPPED rid (Some ''already_present''))"
    and "w2 = w1\<lparr>oplog := oplog w1 @ [Select_summary rid]\<rparr>"
    by simp_all
  then show ?thesis
    using first stored by simp
qed

theorem enrichment_idempotent_witness:
  "fst (process_single_review (const_client ''Explanation X.'') ''R1'' None None example_world) =
     Inr (Outcome SUCCESS ''R1'' None) \<and>
   fst (process_single_review (const_client ''Explanation X.'') ''R1'' None None
          (snd (process_single_review (const_client ''Explanation X.'') ''R1'' None None
                  example_world))) =
     Inr (Outcome SKIPPED ''R1'' (Some ''already_present''))"
proof -
  have h1: "db_ok (const_client ''Explanation X.'')"
    by (simp add: db_ok_def const_client_def)
  have h2: "lookup example_world ''R1'' = Some (example_review ''R1'' ''HIGH'' None)"
    by (simp add: lookup_def example_world_def example_review_def)
  have h3: "\<not> truthy_str (ai_risk_summary (example_review ''R1'' ''HIGH'' None))"
    by (simp add: example_review_def truthy_str_def)
  have h4: "risk_level (example_review ''R1'' ''HIGH'' None) = ''HIGH'' \<or>
            (truthy_dict None \<and> truthy_dict None)"
    by (simp add: example_review_def)
  have h5: "\<forall>c l u p t. client (const_client ''Explanation X.'') = Some c \<longrightarrow>
              c l u p = Inr (Some t) \<longrightarrow> \<not> blank t"
    by (auto simp: const_client_def blank_def strip_def isspace_def)
  show ?thesis
    using enrichment_idempotent [OF h1 h2 h3 h4 h5, of
        "fst (process_single_review (const_client ''Explanation X.'') ''R1'' None None example_world)"
        "snd (process_single_review (const_client ''Explanation X.'') ''R1'' None None example_world)"
        "fst (process_single_review (const_client ''Explanation X.'') ''R1'' None None
          (snd (process_single_review (const_client ''Explanation X.'') ''R1'' None None
                  example_world)))"
        "snd (process_single_review (const_client ''Explanation X.'') ''R1'' None None
          (snd (process_single_review (const_client ''Explanation X.'') ''R1'' None None
                  example_world)))"]
    by simp
qed

text \<open>
  The claim as stated fails twice over. For a review that is not eligible the first call
  is not a \<^verbatim>\<open>SUCCESS\<close>: the \<^verbatim>\<open>LOW\<close> review \<^verbatim>\<open>R2\<close> is skipped. And for the eligible review
  \<^verbatim>\<open>R1\<close>, a backend text of one space passes the emptiness test, is stripped to the empty
  string and stored; the second call reads the empty string as no summary and ends in
  \<^verbatim>\<open>SUCCESS\<close> again.
\<close>

theorem enrichment_idempotent_counterexample:
  "fst (process_single_review (const_client ''Explanation X.'') ''R2'' None None example_world) =
     Inr (Outcome SKIPPED ''R2'' (Some ''non_high_risk'')) \<and>
   fst (process_single_review (const_client '' '') ''R1'' None None example_world) =
     Inr (Outcome SUCCESS ''R1'' None) \<and>
   stored_summary (snd (process_single_review (const_client '' '') ''R1'' None None example_world))
     ''R1'' = Some [] \<and>
   fst (process_single_review (const_client '' '') ''R1'' None None
          (snd (process_single_review (const_client '' '') ''R1'' None None example_world))) =
     Inr (Outcome SUCCESS ''R1'' None)"
  by (simp add: process_single_review_def existing_ai_summary_def db_execute_def
      build_context_from_db_def fetch_review_context_def
      const_client_def example_world_def example_review_def truthy_str_def truthy_dict_def
      generate_ai_summary_def persist_summary_def strip_def isspace_def Let_def
      stored_summary_def lookup_def)

subsection \<open>The orchestrator and the batch loop return\<close>

lemma psr_returns:
  assumes "db_ok e"
  shows "\<exists>out w'. process_single_review e rid uc pj w = (Inr out, w') \<and>
                   outcome_review_id out = rid"
proof (cases "lookup w rid")
  case None
  then show ?thesis
    using assms
    by (auto simp: process_single_review_def existing_ai_summary_ok build_context_absent
        persist_summary_ok Let_def split: prod.splits sum.splits)
next
  case (Some r)
  then show ?thesis
    using assms
    by (auto simp: process_single_review_def existing_ai_summary_ok build_context_present
        persist_summary_ok Let_def split: prod.splits sum.splits)
qed

lemma batch_loop_append:
  "batch_loop e (xs @ ys) acc w =
     (case batch_loop e xs acc w of
        (Inl x, w') \<Rightarrow> (Inl x, w')
      | (Inr outs, w') \<Rightarrow> batch_loop e ys outs w')"
  by (induction xs arbitrary: acc w) (auto split: prod.splits sum.splits)

lemma batch_loop_returns:
  assumes "db_ok e"
  shows "\<exists>outs w'. batch_loop e found acc w = (Inr (acc @ outs), w') \<and>
           map outcome_review_id outs = map review_id found \<and>
           list_all2 (\<lambda>row out. \<exists>w1 w2.
               process_single_review e (review_id row) None None w1 = (Inr out, w2)) found outs"
proof (induction found arbitrary: acc w)
  case Nil
  show ?case by simp
next
  case (Cons row rest)
  obtain out w1 where step: "process_single_review e (review_id row) None None w = (Inr out, w1)"
    and rid: "outcome_review_id out = review_id row"
    using psr_returns [OF assms] by blast
  obtain outs w' where rest: "batch_loop e rest (acc @ [out]) w1 = (Inr ((acc @ [out]) @ outs), w')"
    and ids: "map outcome_review_id outs = map review_id rest"
    and each: "list_all2 (\<lambda>row out. \<exists>w1 w2.
               process_single_review e (review_id row) None None w1 = (Inr out, w2)) rest outs"
    using Cons.IH by blast
  have "batch_loop e (row # rest) acc w = (Inr (acc @ out # outs), w')"
    using step rest by simp
  moreover have "map outcome_review_id (out # outs) = map review_id (row # rest)"
    using rid ids by simp
  moreover have "list_all2 (\<lambda>row out. \<exists>w1 w2.
               process_single_review e (review_id row) None None w1 = (Inr out, w2))
               (row # rest) (out # outs)"
    using step each by auto
  ultimately show ?case by blast
qed

lemma handler_returns:
  assumes "db_ok e"
  shows "\<exists>r w'. handler e ev w = (Inr r, w')"
proof (cases "truthy_str (ev_review_id ev)")
  case True
  then show ?thesis
    using psr_returns [OF assms, of "the (ev_review_id ev)" "ev_user_context ev"
        "ev_policy_json ev" w]
    by (auto simp: handler_def)
next
  case False
  obtain found w1 where l: "list_high_risk_reviews_missing_ai e w = (Inr found, w1)"
    using assms by (simp add: list_high_risk_reviews_missing_ai_def db_execute_ok)
  then show ?thesis
    using False batch_loop_returns [OF assms, of found "[]" w1]
    by (auto simp: handler_def)
qed

subsection \<open>Batch mode\<close>

text \<open>
  The run of the loop, world by world: \<open>ws\<close> lists the world before the first review,
  between each review and the next, and after the last one; the outcome at each position
  is the one the orchestrator returns there.
\<close>

lemma batch_loop_run:
  assumes "db_ok e"
  shows "\<exists>outs ws. batch_loop e found acc w = (Inr (acc @ outs), last ws) \<and>
           length outs = length found \<and> length ws = Suc (length found) \<and> ws ! 0 = w \<and>
           (\<forall>i < length found.
              process_single_review e (review_id (found ! i)) None None (ws ! i) =
                (Inr (outs ! i), ws ! Suc i))"
proof (induction found arbitrary: acc w)
  case Nil
  have "batch_loop e [] acc w = (Inr (acc @ []), last [w]) \<and>
        length ([]::outcome list) = length ([]::review list) \<and>
        length [w] = Suc (length ([]::review list)) \<and> [w] ! 0 = w"
    by simp
  then show ?case
    by (metis length_0_conv less_nat_zero_code list.size(3))
next
  case (Cons row rest)
  obtain out w1 where step: "process_single_review e (review_id row) None None w = (Inr out, w1)"
    using psr_returns [OF assms] by blast
  obtain outs ws where rest: "batch_loop e rest (acc @ [out]) w1 = (Inr ((acc @ [out]) @ outs), last ws)"
    and lo: "length outs = length rest" and lw: "length ws = Suc (length rest)"
    and w0: "ws ! 0 = w1"
    and each: "\<forall>i < length rest.
              process_single_review e (review_id (rest ! i)) None None (ws ! i) =
                (Inr (outs ! i), ws ! Suc i)"
    using Cons.IH by blast
  have ne: "ws \<noteq> []"
    using lw by auto
  have run: "batch_loop e (row # rest) acc w = (Inr (acc @ out # outs), last (w # ws))"
    using step rest ne by simp
  have all: "process_single_review e (review_id ((row # rest) ! i)) None None ((w # ws) ! i) =
                (Inr ((out # outs) ! i), (w # ws) ! Suc i)"
    if "i < length (row # rest)" for i
  proof (cases i)
    case 0
    then show ?thesis
      using step w0 by simp
  next
    case (Suc j)
    then show ?thesis
      using that each by simp
  qed
  have "batch_loop e (row # rest) acc w = (Inr (acc @ out # outs), last (w # ws)) \<and>
        length (out # outs) = length (row # rest) \<and>
        length (w # ws) = Suc (length (row # rest)) \<and> (w # ws) ! 0 = w \<and>
        (\<forall>i < length (row # rest).
           process_single_review e (review_id ((row # rest) ! i)) None None ((w # ws) ! i) =
             (Inr ((out # outs) ! i), (w # ws) ! Suc i))"
    using run lo lw all by simp
  then show ?case
    by blast
qed

text \<open>
  C8. For an event with no \<^verbatim>\<open>review_id\<close>, when no statement raises, the handler returns
  the envelope with status \<^verbatim>\<open>SUCCESS\<close> and a list \<^verbatim>\<open>processed\<close> that has exactly one
  outcome for each row discovered by the storage-side filter (\<^verbatim>\<open>risk_level\<close> is
  \<^verbatim>\<open>HIGH\<close> and \<^verbatim>\<open>ai_risk_summary\<close> is null), in the order of discovery. The outcomes
  are those of the run itself: starting from the world after the discovery, the outcome
  at each position is what the orchestrator returns for the review discovered at that
  position, called with no caller-supplied context in the world the previous review
  left, and the world the handler ends in is the one the last review left.
\<close>

theorem batch_report:
  assumes "db_ok e" and "\<not> truthy_str (ev_review_id ev)"
  shows "\<exists>processed ws.
           handler e ev w = (Inr (Batch SUCCESS processed), last ws) \<and>
           length processed =
             length (filter (\<lambda>r. risk_level r = ''HIGH'' \<and> ai_risk_summary r = None) (rows w)) \<and>
           map outcome_review_id processed =
             map review_id
               (filter (\<lambda>r. risk_level r = ''HIGH'' \<and> ai_risk_summary r = None) (rows w)) \<and>
           length ws = Suc (length processed) \<and>
           ws ! 0 = w\<lparr>oplog := oplog w @ [List_missing]\<rparr> \<and>
           (\<forall>i < length processed.
              process_single_review e
                (review_id (filter (\<lambda>r. risk_level r = ''HIGH'' \<and> ai_risk_summary r = None)
                              (rows w) ! i))
                None None (ws ! i) =
                (Inr (processed ! i), ws ! Suc i))"
proof -
  define found where
    "found = filter (\<lambda>r. risk_level r = ''HIGH'' \<and> ai_risk_summary r = None) (rows w)"
  define v where "v = w\<lparr>oplog := oplog w @ [List_missing]\<rparr>"
  have l: "list_high_risk_reviews_missing_ai e w = (Inr found, v)"
    using assms(1)
    by (simp add: list_high_risk_reviews_missing_ai_def db_execute_ok found_def v_def)
  obtain outs ws where run: "batch_loop e found [] v = (Inr ([] @ outs), last ws)"
    and lo: "length outs = length found" and lw: "length ws = Suc (length found)"
    and w0: "ws ! 0 = v"
    and each: "\<forall>i < length found.
              process_single_review e (review_id (found ! i)) None None (ws ! i) =
                (Inr (outs ! i), ws ! Suc i)"
    using batch_loop_run [OF assms(1)] by blast
  have ids: "outcome_review_id (outs ! i) = review_id (found ! i)" if "i < length found" for i
  proof -
    have "process_single_review e (review_id (found ! i)) None None (ws ! i) =
            (Inr (outs ! i), ws ! Suc i)"
      using each that by simp
    then show ?thesis
      using psr_returns [OF assms(1), of "review_id (found ! i)" None None "ws ! i"] by auto
  qed
  have "map outcome_review_id outs = map review_id found"
    using lo ids by (auto intro: nth_equalityI)
  moreover have "handler e ev w = (Inr (Batch SUCCESS outs), last ws)"
    using assms(2) l run by (simp add: handler_def)
  ultimately have "handler e ev w = (Inr (Batch SUCCESS outs), last ws) \<and>
           length outs = length found \<and>
           map outcome_review_id outs = map review_id found \<and>
           length ws = Suc (length outs) \<and>
           ws ! 0 = v \<and>
           (\<forall>i < length outs.
              process_single_review e (review_id (found ! i)) None None (ws ! i) =
                (Inr (outs ! i), ws ! Suc i))"
    using lo lw w0 each by simp
  then show ?thesis
    unfolding found_def v_def by blast
qed

theorem batch_report_witness:
  "fst (handler (const_client ''Explanation X.'') batch_event example_world) =
     Inr (Batch SUCCESS [Outcome SUCCESS ''R1'' None, Outcome SUCCESS ''R5'' None]) \<and>
   (\<exists>processed ws.
      handler (const_client ''Explanation X.'') batch_event example_world =
        (Inr (Batch SUCCESS processed), last ws) \<and>
      map outcome_review_id processed = [''R1'', ''R5''] \<and>
      ws ! 0 = example_world\<lparr>oplog := oplog example_world @ [List_missing]\<rparr> \<and>
      process_single_review (const_client ''Explanation X.'') ''R1'' None None (ws ! 0) =
        (Inr (processed ! 0), ws ! 1))"
proof -
  have h1: "db_ok (const_client ''Explanation X.'')"
    by (simp add: db_ok_def const_client_def)
  have h2: "\<not> truthy_str (ev_review_id batch_event)"
    by (simp add: batch_event_def truthy_str_def)
  have found: "filter (\<lambda>r. risk_level r = ''HIGH'' \<and> ai_risk_summary r = None) (rows example_world)
        = [example_review ''R1'' ''HIGH'' None, example_review ''R5'' ''HIGH'' None]"
    by (simp add: example_world_def example_review_def)
  obtain processed ws where
    run: "handler (const_client ''Explanation X.'') batch_event example_world =
            (Inr (Batch SUCCESS processed), last ws)"
    and len: "length processed = 2"
    and ids: "map outcome_review_id processed = [''R1'', ''R5'']"
    and w0: "ws ! 0 = example_world\<lparr>oplog := oplog example_world @ [List_missing]\<rparr>"
    and each: "\<forall>i < length processed.
              process_single_review (const_client ''Explanation X.'')
                (review_id ([example_review ''R1'' ''HIGH'' None,
                             example_review ''R5'' ''HIGH'' None] ! i))
                None None (ws ! i) = (Inr (processed ! i), ws ! Suc i)"
    using batch_report [OF h1 h2, of example_world] unfolding found
    by (auto simp: example_review_def)
  have "0 < length processed"
    using len by simp
  from each [rule_format, OF this]
  have first: "process_single_review (const_client ''Explanation X.'') ''R1'' None None (ws ! 0) =
                 (Inr (processed ! 0), ws ! 1)"
    by (simp add: example_review_def)
  have direct: "fst (handler (const_client ''Explanation X.'') batch_event example_world) =
     Inr (Batch SUCCESS [Outcome SUCCESS ''R1'' None, Outcome SUCCESS ''R5'' None])"
    by (simp add: handler_def list_high_risk_reviews_missing_ai_def
        process_single_review_def existing_ai_summary_def db_execute_def
        build_context_from_db_def fetch_review_context_def const_client_def batch_event_def
        example_world_def example_review_def truthy_str_def truthy_dict_def
        generate_ai_summary_def persist_summary_def strip_def isspace_def Let_def)
  have "\<exists>processed ws.
      handler (const_client ''Explanation X.'') batch_event example_world =
        (Inr (Batch SUCCESS processed), last ws) \<and>
      map outcome_review_id processed = [''R1'', ''R5''] \<and>
      ws ! 0 = example_world\<lparr>oplog := oplog example_world @ [List_missing]\<rparr> \<and>
      process_single_review (const_client ''Explanation X.'') ''R1'' None None (ws ! 0) =
        (Inr (processed ! 0), ws ! 1)"
    using run ids w0 first by (intro exI [of _ processed] exI [of _ ws] conjI)
  with direct show ?thesis
    by (rule conjI)
qed

subsection \<open>The failures of the generator\<close>

text \<open>
  C7, as amended. \<^verbatim>\<open>generate_ai_summary\<close> raises exactly when the client is not
  configured, or the backend call raises, or the backend returns a missing or empty
  text; otherwise it returns the backend's text with leading and trailing whitespace
  stripped. None of these failures leaves the orchestrator: when no statement raises,
  \<^verbatim>\<open>_process_single_review\<close> and the handler return normally whatever the client does.
\<close>

theorem generate_ai_summary_fails_iff:
  "((\<exists>x. fst (generate_ai_summary e u p w) = Inl x) \<longleftrightarrow>
      client e = None \<or>
      (\<exists>c x. client e = Some c \<and> c (oplog w) u p = Inl x) \<or>
      (\<exists>c. client e = Some c \<and>
           (c (oplog w) u p = Inr None \<or> c (oplog w) u p = Inr (Some [])))) \<and>
   (\<forall>c t. client e = Some c \<and> c (oplog w) u p = Inr (Some t) \<and> t \<noteq> [] \<longrightarrow>
      fst (generate_ai_summary e u p w) = Inr (strip t)) \<and>
   (db_ok e \<longrightarrow>
      (\<exists>out w'. process_single_review e rid uc pj v = (Inr out, w')) \<and>
      (\<exists>r w'. handler e ev v = (Inr r, w')))"
proof -
  have "(\<exists>x. fst (generate_ai_summary e u p w) = Inl x) \<longleftrightarrow>
      client e = None \<or>
      (\<exists>c x. client e = Some c \<and> c (oplog w) u p = Inl x) \<or>
      (\<exists>c. client e = Some c \<and>
           (c (oplog w) u p = Inr None \<or> c (oplog w) u p = Inr (Some [])))"
    by (cases e u p w rule: generate_cases)
      (auto simp: truthy_str_def split: option.splits)
  moreover have "\<forall>c t. client e = Some c \<and> c (oplog w) u p = Inr (Some t) \<and> t \<noteq> [] \<longrightarrow>
      fst (generate_ai_summary e u p w) = Inr (strip t)"
    by (simp add: generate_ai_summary_def truthy_str_def)
  moreover have "db_ok e \<longrightarrow>
      (\<exists>out w'. process_single_review e rid uc pj v = (Inr out, w')) \<and>
      (\<exists>r w'. handler e ev v = (Inr r, w'))"
    using psr_returns [of e rid uc pj v] handler_returns [of e ev v] by blast
  ultimately show ?thesis
    by blast
qed

theorem generate_ai_summary_fails_iff_witness:
  "fst (generate_ai_summary (const_client '' Explanation X. '') [(''department'', JStr ''Finance'')]
          [(''policy_name'', JStr ''AdministratorAccess'')] example_world) =
     Inr ''Explanation X.'' \<and>
   (\<exists>r w'. handler failing_client batch_event example_world = (Inr r, w'))"
proof -
  have h1: "db_ok failing_client"
    by (simp add: db_ok_def failing_client_def)
  have h2: "client (const_client '' Explanation X. '') = Some (\<lambda>_ _ _. Inr (Some '' Explanation X. ''))
        \<and> (\<lambda>_ _ _. Inr (Some '' Explanation X. '')) (oplog example_world) [(''department'', JStr ''Finance'')]
          [(''policy_name'', JStr ''AdministratorAccess'')] = Inr (Some '' Explanation X. '')
        \<and> '' Explanation X. '' \<noteq> []"
    by (simp add: const_client_def)
  have s: "strip '' Explanation X. '' = ''Explanation X.''"
    by (simp add: strip_def isspace_def)
  have "fst (generate_ai_summary (const_client '' Explanation X. '') [(''department'', JStr ''Finance'')]
          [(''policy_name'', JStr ''AdministratorAccess'')] example_world) =
     Inr (strip '' Explanation X. '')"
    using generate_ai_summary_fails_iff [of "const_client '' Explanation X. ''"
        "[(''department'', JStr ''Finance'')]"
        "[(''policy_name'', JStr ''AdministratorAccess'')]"
        example_world, THEN conjunct2, THEN conjunct1, rule_format, OF h2] .
  moreover have "\<exists>r w'. handler failing_client batch_event example_world = (Inr r, w')"
    using generate_ai_summary_fails_iff [of failing_client "[]" "[]" example_world
        "''R1''" None None example_world batch_event,
        THEN conjunct2, THEN conjunct2, rule_format, OF h1] by blast
  ultimately show ?thesis
    using s by simp
qed

text \<open>
  The claim as stated says the generator returns the backend's text. It returns the
  stripped text: the backend text with a space on either side comes back without them.
\<close>

theorem generate_ai_summary_counterexample:
  "fst (generate_ai_summary (const_client '' Explanation X. '') [(''department'', JStr ''Finance'')]
          [(''policy_name'', JStr ''AdministratorAccess'')] example_world) \<noteq>
     Inr '' Explanation X. ''"
  by (simp add: generate_ai_summary_def const_client_def truthy_str_def strip_def isspace_def)

subsection \<open>Exceptions in batch mode\<close>

text \<open>
  C6, as amended. In batch mode, when processing one discovered review raises, the
  exception leaves the handler: the invocation ends with that exception instead of a
  report, in the world as the failing review left it, so the reviews discovered after it
  are not processed.
\<close>

theorem batch_exception_propagates:
  assumes "\<not> truthy_str (ev_review_id ev)"
    and "list_high_risk_reviews_missing_ai e w = (Inr (before @ row # later), w0)"
    and "batch_loop e before [] w0 = (Inr outs, w1)"
    and "process_single_review e (review_id row) None None w1 = (Inl x, w2)"
  shows "handler e ev w = (Inl x, w2)"
  using assms by (simp add: handler_def batch_loop_append)

theorem batch_exception_propagates_witness:
  "handler (write_fault ''R1'') batch_event example_world =
     (Inl (DbError ''database is locked''),
      example_world\<lparr>oplog := [List_missing, Select_summary ''R1'', Fetch_context ''R1'']\<rparr>)"
proof -
  have h1: "\<not> truthy_str (ev_review_id batch_event)"
    by (simp add: batch_event_def truthy_str_def)
  have h2: "list_high_risk_reviews_missing_ai (write_fault ''R1'') example_world =
              (Inr ([] @ example_review ''R1'' ''HIGH'' None # [example_review ''R5'' ''HIGH'' None]),
               example_world\<lparr>oplog := [List_missing]\<rparr>)"
    by (simp add: list_high_risk_reviews_missing_ai_def db_execute_def write_fault_def
        example_world_def example_review_def)
  have h3: "batch_loop (write_fault ''R1'') [] [] (example_world\<lparr>oplog := [List_missing]\<rparr>) =
              (Inr [], example_world\<lparr>oplog := [List_missing]\<rparr>)"
    by simp
  have h4: "process_single_review (write_fault ''R1'')
              (review_id (example_review ''R1'' ''HIGH'' None)) None None
              (example_world\<lparr>oplog := [List_missing]\<rparr>) =
              (Inl (DbError ''database is locked''),
               example_world\<lparr>oplog := [List_missing, Select_summary ''R1'', Fetch_context ''R1'']\<rparr>)"
    by (simp add: process_single_review_def existing_ai_summary_def db_execute_def
        build_context_from_db_def fetch_review_context_def write_fault_def
        example_world_def example_review_def truthy_str_def truthy_dict_def
        generate_ai_summary_def persist_summary_def Let_def)
  show ?thesis
    by (rule batch_exception_propagates [OF h1 h2 h3 h4])
qed

text \<open>
  The claim as stated asks for a report with a \<^verbatim>\<open>FAILED\<close> outcome for the failing review
  and the outcomes of the others. When the storage rejects the write for \<^verbatim>\<open>R1\<close>, the
  handler returns no report, and \<^verbatim>\<open>R5\<close>, discovered after \<^verbatim>\<open>R1\<close>, is never looked at.
\<close>

theorem batch_isolation_counterexample:
  "fst (handler (write_fault ''R1'') batch_event example_world) =
     Inl (DbError ''database is locked'') \<and>
   oplog (snd (handler (write_fault ''R1'') batch_event example_world)) =
     [List_missing, Select_summary ''R1'', Fetch_context ''R1''] \<and>
   stored_summary (snd (handler (write_fault ''R1'') batch_event example_world)) ''R5'' = None"
  by (simp add: handler_def list_high_risk_reviews_missing_ai_def
      process_single_review_def existing_ai_summary_def db_execute_def
      build_context_from_db_def fetch_review_context_def write_fault_def batch_event_def
      example_world_def example_review_def truthy_str_def truthy_dict_def
      generate_ai_summary_def persist_summary_def Let_def stored_summary_def lookup_def)

subsection \<open>Inline context\<close>

lemma update_absent:
  "rid \<notin> set (map review_id xs) \<Longrightarrow>
   map (\<lambda>r. if review_id r = rid then r\<lparr>ai_risk_summary := Some s\<rparr> else r) xs = xs"
  by (induction xs) auto

lemma generate_oplog:
  assumes "generate_ai_summary e u p w = (g, w')"
  shows "oplog w' = oplog w \<or> oplog w' = oplog w @ [Generate_content u p]"
  using assms by (cases e u p w rule: generate_cases) auto

lemma psr_inline:
  assumes "db_ok e" and "\<not> truthy_str (stored_summary w rid)"
    and "u \<noteq> []" and "p \<noteq> []"
    and "generate_ai_summary e u p (w\<lparr>oplog := oplog w @ [Select_summary rid]\<rparr>) = (g, w3)"
  shows "process_single_review e rid (Some u) (Some p) w =
           (Inr (Outcome SUCCESS rid None),
            w3\<lparr>oplog := oplog w3 @ [Update_summary rid (summary_of g)],
                rows := map (\<lambda>r. if review_id r = rid
                                  then r\<lparr>ai_risk_summary := Some (summary_of g)\<rparr> else r)
                            (rows w)\<rparr>)"
  using assms generate_rows [OF assms(5)]
  by (auto simp: process_single_review_def existing_ai_summary_ok truthy_dict_def
      persist_summary_ok summary_of_def Let_def split: sum.splits)

text \<open>
  C10, as amended. Take a single-review invocation whose event carries a non-empty
  \<^verbatim>\<open>user_context\<close> and a non-empty \<^verbatim>\<open>policy_json\<close>, with no statement raising. The
  handler never sends the statement that reads the stored \<^verbatim>\<open>risk_level\<close>; unless a
  summary is already present the outcome is \<^verbatim>\<open>SUCCESS\<close>, whatever the stored risk level
  is. In particular, when no row has the given \<^verbatim>\<open>review_id\<close> the outcome is \<^verbatim>\<open>SUCCESS\<close>,
  the last operation is the update for that \<^verbatim>\<open>review_id\<close>, and the table is unchanged.
\<close>

theorem inline_context_skips_risk_lookup:
  assumes "db_ok e"
    and "ev_review_id ev = Some rid" and "rid \<noteq> []"
    and "ev_user_context ev = Some u" and "u \<noteq> []"
    and "ev_policy_json ev = Some p" and "p \<noteq> []"
    and "handler e ev w = (res, w')"
  shows "filter is_fetch (oplog w') = filter is_fetch (oplog w) \<and>
         (\<not> truthy_str (stored_summary w rid) \<longrightarrow>
            res = Inr (Single (Outcome SUCCESS rid None))) \<and>
         (rid \<notin> set (map review_id (rows w)) \<longrightarrow>
            res = Inr (Single (Outcome SUCCESS rid None)) \<and>
            (\<exists>s. last (oplog w') = Update_summary rid s) \<and>
            rows w' = rows w)"
proof (cases "truthy_str (stored_summary w rid)")
  case True
  have "db_fault e (oplog w) (Select_summary rid) = None"
    using assms(1) by (simp add: db_ok_def)
  from psr_already_present [OF this True, of "Some u" "Some p"] assms(2-8)
  have "w' = w\<lparr>oplog := oplog w @ [Select_summary rid]\<rparr>"
    by (auto simp: handler_def truthy_str_def)
  moreover have "rid \<in> set (map review_id (rows w))"
    using True lookup_absent [of w rid]
    by (auto simp: stored_summary_def truthy_str_def split: option.splits)
  ultimately show ?thesis
    using True by (simp add: is_fetch_def)
next
  case False
  define v where "v = w\<lparr>oplog := oplog w @ [Select_summary rid]\<rparr>"
  obtain g w3 where gen: "generate_ai_summary e u p v = (g, w3)"
    by (cases "generate_ai_summary e u p v")
  have "process_single_review e rid (Some u) (Some p) w =
           (Inr (Outcome SUCCESS rid None),
            w3\<lparr>oplog := oplog w3 @ [Update_summary rid (summary_of g)],
                rows := map (\<lambda>r. if review_id r = rid
                                  then r\<lparr>ai_risk_summary := Some (summary_of g)\<rparr> else r)
                            (rows w)\<rparr>)"
    using assms(1) False assms(5) assms(7) gen [unfolded v_def] by (rule psr_inline)
  then have res: "res = Inr (Single (Outcome SUCCESS rid None))"
    and w': "w' = w3\<lparr>oplog := oplog w3 @ [Update_summary rid (summary_of g)],
                rows := map (\<lambda>r. if review_id r = rid
                                  then r\<lparr>ai_risk_summary := Some (summary_of g)\<rparr> else r)
                            (rows w)\<rparr>"
    using assms(2-8) by (auto simp: handler_def truthy_str_def)
  have "oplog w3 = oplog v \<or> oplog w3 = oplog v @ [Generate_content u p]"
    using gen by (rule generate_oplog)
  then have "filter is_fetch (oplog w') = filter is_fetch (oplog w)"
    by (auto simp: w' v_def is_fetch_def)
  then show ?thesis
    using res by (auto simp: w' update_absent)
qed

theorem inline_context_skips_risk_lookup_witness:
  "handler no_client
     (inline_event ''R9'' [(''department'', JStr ''Finance'')]
        [(''policy_name'', JStr ''AdministratorAccess'')]) example_world =
     (Inr (Single (Outcome SUCCESS ''R9'' None)),
      snd (handler no_client
         (inline_event ''R9'' [(''department'', JStr ''Finance'')]
            [(''policy_name'', JStr ''AdministratorAccess'')]) example_world)) \<and>
   rows (snd (handler no_client
         (inline_event ''R9'' [(''department'', JStr ''Finance'')]
            [(''policy_name'', JStr ''AdministratorAccess'')]) example_world)) =
     rows example_world"
proof -
  define ev where "ev = inline_event ''R9'' [(''department'', JStr ''Finance'')]
        [(''policy_name'', JStr ''AdministratorAccess'')]"
  have h1: "db_ok no_client"
    by (simp add: db_ok_def no_client_def)
  have h2: "ev_review_id ev = Some ''R9''" and h3: "''R9'' \<noteq> []"
    and h4: "ev_user_context ev = Some [(''department'', JStr ''Finance'')]"
    and h5: "[(''department'', JStr ''Finance'')] \<noteq> []"
    and h6: "ev_policy_json ev = Some [(''policy_name'', JStr ''AdministratorAccess'')]"
    and h7: "[(''policy_name'', JStr ''AdministratorAccess'')] \<noteq> []"
    by (simp_all add: ev_def inline_event_def)
  have h8: "handler no_client ev example_world =
              (fst (handler no_client ev example_world), snd (handler no_client ev example_world))"
    by simp
  have absent: "''R9'' \<notin> set (map review_id (rows example_world))"
    by (simp add: example_world_def example_review_def)
  show ?thesis
    using inline_context_skips_risk_lookup [OF h1 h2 h3 h4 h5 h6 h7 h8] absent
    unfolding ev_def [symmetric]
    by (metis prod.collapse)
qed

text \<open>
  The claim as stated covers every invocation that supplies both contexts. An empty
  \<^verbatim>\<open>user_context\<close> is supplied and yet is false in the test of the orchestrator, which
  then goes to storage: for a \<^verbatim>\<open>review_id\<close> that is not there the outcome is \<^verbatim>\<open>FAILED\<close>.
\<close>

theorem inline_context_counterexample:
  "handler no_client (inline_event ''R9'' [] [(''policy_name'', JStr ''AdministratorAccess'')])
     example_world =
     (Inr (Single (Outcome FAILED ''R9'' (Some ''not_found''))),
      example_world\<lparr>oplog := [Select_summary ''R9'', Fetch_context ''R9'']\<rparr>)"
  by (simp add: handler_def 
      process_single_review_def existing_ai_summary_def db_execute_def
      build_context_from_db_def fetch_review_context_def no_client_def inline_event_def
      example_world_def example_review_def truthy_str_def truthy_dict_def)

subsection \<open>Write once\<close>

text \<open>What a call may do to the table: nothing, or one update of a review that had no summary.\<close>

lemma psr_rows:
  assumes "process_single_review e rid uc pj w = (res, w')"
  shows "rows w' = rows w \<or>
         (\<not> truthy_str (stored_summary w rid) \<and>
          (\<exists>s. rows w' = map (\<lambda>r. if review_id r = rid
                                    then r\<lparr>ai_risk_summary := Some s\<rparr> else r) (rows w)))"
proof -
  have ex: "\<And>w1 x. existing_ai_summary e rid w = (x, w1) \<Longrightarrow>
              rows w1 = rows w \<and> (\<forall>s. x = Inr s \<longrightarrow> s = stored_summary w rid)"
    by (auto simp: existing_ai_summary_def db_execute_def stored_summary_def lookup_def
        split: option.splits)
  have bc: "\<And>v v' x. build_context_from_db e rid v = (x, v') \<Longrightarrow> rows v' = rows v"
    by (auto simp: build_context_from_db_def fetch_review_context_def db_execute_def
        split: option.splits prod.splits sum.splits)
  have ps: "\<And>v v' x s. persist_summary e rid s v = (x, v') \<Longrightarrow>
              rows v' = rows v \<or>
              rows v' = map (\<lambda>r. if review_id r = rid
                                    then r\<lparr>ai_risk_summary := Some s\<rparr> else r) (rows v)"
    by (auto simp: persist_summary_def db_execute_def split: option.splits)
  show ?thesis
    using assms
    by (auto simp: process_single_review_def Let_def
        split: prod.splits sum.splits if_splits option.splits
        dest!: ex bc ps generate_rows)
qed

lemma stored_summary_other:
  assumes "k \<noteq> rid"
    and "rows w' = map (\<lambda>r. if review_id r = rid
                              then r\<lparr>ai_risk_summary := Some s\<rparr> else r) (rows w)"
  shows "stored_summary w' k = stored_summary w k"
proof (cases "find (\<lambda>r. review_id r = k) (rows w)")
  case None
  then show ?thesis
    using assms(2) by (simp add: stored_summary_def lookup_def find_after_update)
next
  case (Some r)
  then have "review_id r = k"
    by (auto simp: find_Some_iff)
  then show ?thesis
    using assms Some by (simp add: stored_summary_def lookup_def find_after_update)
qed

lemma keeps_summaries_refl: "rows w' = rows w \<Longrightarrow> keeps_summaries w w'"
  by (simp add: keeps_summaries_def stored_summary_def lookup_def)

lemma keeps_summaries_trans:
  "keeps_summaries w w1 \<Longrightarrow> keeps_summaries w1 w2 \<Longrightarrow> keeps_summaries w w2"
  by (simp add: keeps_summaries_def)

lemma psr_keeps_summaries:
  assumes "process_single_review e rid uc pj w = (res, w')"
  shows "keeps_summaries w w'"
proof -
  consider "rows w' = rows w"
    | s where "\<not> truthy_str (stored_summary w rid)"
        "rows w' = map (\<lambda>r. if review_id r = rid
                             then r\<lparr>ai_risk_summary := Some s\<rparr> else r) (rows w)"
    using psr_rows [OF assms] by blast
  then show ?thesis
  proof cases
    case 1
    then show ?thesis by (rule keeps_summaries_refl)
  next
    case 2
    have "stored_summary w' k = stored_summary w k" if "truthy_str (stored_summary w k)" for k
    proof -
      have "k \<noteq> rid"
        using that 2(1) by auto
      then show ?thesis
        using 2(2) by (rule stored_summary_other)
    qed
    then show ?thesis
      by (simp add: keeps_summaries_def)
  qed
qed

lemma batch_loop_keeps_summaries:
  "batch_loop e found acc w = (res, w') \<Longrightarrow> keeps_summaries w w'"
proof (induction found arbitrary: acc w)
  case Nil
  then show ?case by (simp add: keeps_summaries_refl)
next
  case (Cons row rest)
  obtain x w1 where step: "process_single_review e (review_id row) None None w = (x, w1)"
    by (cases "process_single_review e (review_id row) None None w")
  then have k1: "keeps_summaries w w1"
    by (rule psr_keeps_summaries)
  show ?case
  proof (cases x)
    case (Inl a)
    then show ?thesis
      using Cons.prems step k1 by simp
  next
    case (Inr out)
    then have "batch_loop e rest (acc @ [out]) w1 = (res, w')"
      using Cons.prems step by simp
    then have "keeps_summaries w1 w'"
      by (rule Cons.IH)
    with k1 show ?thesis
      by (rule keeps_summaries_trans)
  qed
qed

lemma handler_keeps_summaries:
  assumes "handler e ev w = (res, w')"
  shows "keeps_summaries w w'"
proof (cases "truthy_str (ev_review_id ev)")
  case True
  then show ?thesis
    using assms
    by (auto simp: handler_def split: prod.splits sum.splits dest: psr_keeps_summaries)
next
  case False
  obtain x w1 where l: "list_high_risk_reviews_missing_ai e w = (x, w1)"
    by (cases "list_high_risk_reviews_missing_ai e w")
  then have "rows w1 = rows w"
    by (auto simp: list_high_risk_reviews_missing_ai_def db_execute_def split: option.splits)
  then have k1: "keeps_summaries w w1"
    by (rule keeps_summaries_refl)
  show ?thesis
  proof (cases x)
    case (Inl a)
    then show ?thesis
      using False assms l k1 by (simp add: handler_def)
  next
    case (Inr found)
    obtain y w2 where b: "batch_loop e found [] w1 = (y, w2)"
      by (cases "batch_loop e found [] w1")
    then have "keeps_summaries w1 w2"
      by (rule batch_loop_keeps_summaries)
    moreover have "w' = w2"
      using False assms l Inr b by (auto simp: handler_def split: sum.splits)
    ultimately show ?thesis
      using k1 by (auto intro: keeps_summaries_trans)
  qed
qed

text \<open>
  C2, as amended. When the summary stored for a review (what a read by its
  \<^verbatim>\<open>review_id\<close> returns) is non-null and non-empty, no invocation of the handler, in
  either mode and whatever the client and the storage do, changes it. Processing such a
  review stops at the first check, when the read does not raise: the outcome is
  \<^verbatim>\<open>SKIPPED\<close> with reason \<^verbatim>\<open>already_present\<close>, and the read is the only operation, so
  there is no write.
\<close>

theorem summary_written_once:
  "(truthy_str (stored_summary w k) \<and> handler e ev w = (res, w') \<longrightarrow>
      stored_summary w' k = stored_summary w k) \<and>
   (truthy_str (stored_summary w rid) \<and>
    db_fault e (oplog w) (Select_summary rid) = None \<longrightarrow>
      process_single_review e rid uc pj w =
        (Inr (Outcome SKIPPED rid (Some ''already_present'')),
         w\<lparr>oplog := oplog w @ [Select_summary rid]\<rparr>))"
proof (intro conjI impI)
  assume a: "truthy_str (stored_summary w k) \<and> handler e ev w = (res, w')"
  then have "handler e ev w = (res, w')"
    by simp
  then have "keeps_summaries w w'"
    by (rule handler_keeps_summaries)
  with a show "stored_summary w' k = stored_summary w k"
    by (simp add: keeps_summaries_def)
next
  assume "truthy_str (stored_summary w rid) \<and>
          db_fault e (oplog w) (Select_summary rid) = None"
  then show "process_single_review e rid uc pj w =
              (Inr (Outcome SKIPPED rid (Some ''already_present'')),
               w\<lparr>oplog := oplog w @ [Select_summary rid]\<rparr>)"
    by (simp add: psr_already_present)
qed

theorem summary_written_once_witness:
  "stored_summary (snd (handler (const_client ''Explanation X.'') batch_event example_world))
     ''R3'' = Some ''already there'' \<and>
   process_single_review (const_client ''Explanation X.'') ''R3'' None None example_world =
     (Inr (Outcome SKIPPED ''R3'' (Some ''already_present'')),
      example_world\<lparr>oplog := oplog example_world @ [Select_summary ''R3'']\<rparr>)"
proof -
  have s: "stored_summary example_world ''R3'' = Some ''already there''"
    by (simp add: stored_summary_def lookup_def example_world_def example_review_def)
  have h1: "truthy_str (stored_summary example_world ''R3'') \<and>
            handler (const_client ''Explanation X.'') batch_event example_world =
              (fst (handler (const_client ''Explanation X.'') batch_event example_world),
               snd (handler (const_client ''Explanation X.'') batch_event example_world))"
    by (simp add: s truthy_str_def)
  have h2: "truthy_str (stored_summary example_world ''R3'') \<and>
            db_fault (const_client ''Explanation X.'') (oplog example_world)
              (Select_summary ''R3'') = None"
    by (simp add: s truthy_str_def const_client_def)
  note inst = summary_written_once [of example_world "''R3''" "const_client ''Explanation X.''"
      batch_event
      "fst (handler (const_client ''Explanation X.'') batch_event example_world)"
      "snd (handler (const_client ''Explanation X.'') batch_event example_world)"
      "''R3''" None None]
  have "stored_summary (snd (handler (const_client ''Explanation X.'') batch_event example_world))
          ''R3'' = stored_summary example_world ''R3''"
    using inst [THEN conjunct1, rule_format, OF h1] .
  moreover have "process_single_review (const_client ''Explanation X.'') ''R3'' None None
                   example_world =
     (Inr (Outcome SKIPPED ''R3'' (Some ''already_present'')),
      example_world\<lparr>oplog := oplog example_world @ [Select_summary ''R3'']\<rparr>)"
    using inst [THEN conjunct2, rule_format, OF h2] .
  ultimately show ?thesis
    using s by simp
qed

text \<open>
  The claim as stated is about every non-null summary. The empty string is non-null and
  false in the test of the orchestrator: a \<^verbatim>\<open>HIGH\<close> review whose stored summary is the
  empty string is processed like one with none, and its summary is overwritten.
\<close>

theorem summary_written_once_counterexample:
  "ai_risk_summary (example_review ''R6'' ''HIGH'' (Some [])) \<noteq> None \<and>
   process_single_review no_client ''R6'' None None
     \<lparr>rows = [example_review ''R6'' ''HIGH'' (Some [])], oplog = []\<rparr> =
     (Inr (Outcome SUCCESS ''R6'' None),
      \<lparr>rows = [example_review ''R6'' ''HIGH'' (Some fallback_summary)],
       oplog = [Select_summary ''R6'', Fetch_context ''R6'',
                Update_summary ''R6'' fallback_summary]\<rparr>)"
  by (simp add: process_single_review_def existing_ai_summary_def db_execute_def
      build_context_from_db_def fetch_review_context_def no_client_def
      example_review_def truthy_str_def truthy_dict_def
      generate_ai_summary_def persist_summary_def Let_def)

end
